theory Spec2Isabelle
  imports Complex_Main "HOL-Library.AList" "HOL-Library.Product_Lexorder"
    "HOL-Library.List_Lexorder" "HOL-Library.Multiset" "HOL-Library.Multiset"
begin

section \<open>Events, values and the store\<close>

text \<open>
  \<^verbatim>\<open>shutterfly_main.py\<close> reads a JSON array of event objects, loads them record by
  record into an in-memory SQLite database (\<^verbatim>\<open>pragma foreign_keys = 1\<close>), builds the
  analytics table \<^verbatim>\<open>customer_LTV\<close> and queries the top N customers.

  A JSON value of an event is a string, a number, \<^verbatim>\<open>null\<close> or an array/object. An
  event is the Python dict that \<^verbatim>\<open>json.load\<close> returns: an association list read with
  \<open>map_of\<close> (the first binding of a key is the dict's), iterated with \<open>items\<close>.
\<close>

datatype jval = JStr string | JNum rat | JNull | JArr

type_synonym event = "(string \<times> jval) list"

definition items :: "event \<Rightarrow> (string \<times> jval) list" where
  "items ev = AList.clearjunk ev"

text \<open>
  What a column holds: \<^verbatim>\<open>NULL\<close>, a text, a number, or (column \<^verbatim>\<open>tags\<close> only) the
  text \<^verbatim>\<open>json.dumps(str(v))\<close> of a JSON value \<open>v\<close>, kept as \<open>SRepr v\<close>.
\<close>

datatype sqlval = SNull | SText string | SNum rat | SRepr jval

type_synonym row = "sqlval list"

datatype tname = Customer | SiteVisit | ImageUploaded | Orders

text \<open>The exception classes that the program can meet.\<close>

datatype error = KeyError | TypeError | InterfaceError | IntegrityError | OperationalError

text \<open>
  A row of \<^verbatim>\<open>customer_LTV (Customer_id, NoofVisits, total_expenditure,
  ExpenditurePerVisit, SiteVisitsPerWeek, NoOfWeeks, CLV)\<close>. The REAL columns are
  rationals here: the arithmetic of the program is modelled exactly, without the
  rounding of IEEE doubles.
\<close>

record ltv_row =
  Customer_id :: sqlval
  NoofVisits :: nat
  total_expenditure :: rat
  ExpenditurePerVisit :: rat
  SiteVisitsPerWeek :: rat
  NoOfWeeks :: rat
  CLV :: rat

datatype log_entry =
    Warning string string error   \<comment> \<open>message prefix, the record's key, the exception\<close>
  | Critical error

record state =
  db :: "tname \<Rightarrow> row list"
  customer_LTV :: "ltv_row list"
  logged :: "log_entry list"

text \<open>\<^verbatim>\<open>create_tables\<close> on the fresh in-memory database: five empty tables.\<close>

definition create_tables :: state where
  "create_tables = \<lparr>db = (\<lambda>t. []), customer_LTV = [], logged = []\<rparr>"

text \<open>
  The schema of \<^verbatim>\<open>create_tables\<close>: column names in declaration order. Column 0 is
  the \<^verbatim>\<open>TEXT PRIMARY KEY\<close>; in the three dependent tables column 2 is
  \<^verbatim>\<open>customer_id ... REFERENCES customer(customer_id)\<close>. Column 1 (\<^verbatim>\<open>DATE\<close>) and
  \<^verbatim>\<open>total_amount\<close> (\<^verbatim>\<open>REAL\<close>) are the columns without TEXT affinity.
\<close>

fun columns :: "tname \<Rightarrow> string list" where
  "columns Customer = [''customer_id'', ''event_time'', ''last_name'', ''adr_city'', ''adr_state'']"
| "columns SiteVisit = [''page_id'', ''event_time'', ''customer_id'', ''tags'']"
| "columns ImageUploaded = [''image_id'', ''event_time'', ''customer_id'', ''camera_make'', ''camera_model'']"
| "columns Orders = [''order_id'', ''event_time'', ''customer_id'', ''total_amount'']"

fun text_columns :: "tname \<Rightarrow> nat list" where
  "text_columns Customer = [0, 2, 3, 4]"
| "text_columns SiteVisit = [0, 2, 3]"
| "text_columns ImageUploaded = [0, 2, 3, 4]"
| "text_columns Orders = [0, 2]"

definition col :: "nat \<Rightarrow> row \<Rightarrow> sqlval" where
  "col i r = (if i < length r then r ! i else SNull)"

definition pk :: "row \<Rightarrow> sqlval" where
  "pk r = col 0 r"

definition fk :: "row \<Rightarrow> sqlval" where
  "fk r = col 2 r"

definition is_num :: "sqlval \<Rightarrow> bool" where
  "is_num v = (case v of SNum _ \<Rightarrow> True | _ \<Rightarrow> False)"

section \<open>The statements the program executes\<close>

text \<open>
  A statement either runs (\<open>Done\<close>, with the new tables), raises (\<open>Err\<close>; SQLite undoes
  the statement, the tables are as before), or is \<open>Beyond\<close> what is modelled: a number
  bound to a TEXT column (SQLite stores its decimal rendering), and statement texts that
  SQLite would not read as the assignment list the program intends.
\<close>

datatype 'a exec = Done 'a | Err error | Beyond

text \<open>The sqlite3 module binds a string, a number or None; a list or dict is refused.\<close>

fun bind :: "jval \<Rightarrow> error + sqlval" where
  "bind (JStr s) = Inr (SText s)"
| "bind (JNum r) = Inr (SNum r)"
| "bind JNull = Inr SNull"
| "bind JArr = Inl InterfaceError"

fun bind_all :: "(error + sqlval) list \<Rightarrow> error + row" where
  "bind_all [] = Inr []"
| "bind_all (Inl e # ps) = Inl e"
| "bind_all (Inr v # ps) = (case bind_all ps of Inl e \<Rightarrow> Inl e | Inr r \<Rightarrow> Inr (v # r))"

text \<open>
  \<^verbatim>\<open>INSERT INTO t VALUES (?,...)\<close>. The primary key must differ from every key of
  the table (a NULL key is exempt, as SQLite has it for a non-integer primary key); in a
  dependent table a non-NULL \<^verbatim>\<open>customer_id\<close> must be the key of a Customer row.
  Each check that raises does so whatever the remaining columns hold.
\<close>

definition sql_insert :: "tname \<Rightarrow> (tname \<Rightarrow> row list) \<Rightarrow> (error + sqlval) list \<Rightarrow> (tname \<Rightarrow> row list) exec" where
  "sql_insert t d ps =
     (case bind_all ps of
        Inl e \<Rightarrow> Err e
      | Inr r \<Rightarrow>
          if is_num (pk r) then Beyond
          else if pk r \<noteq> SNull \<and> pk r \<in> set (map pk (d t)) then Err IntegrityError
          else if t \<noteq> Customer \<and> is_num (fk r) then Beyond
          else if t \<noteq> Customer \<and> fk r \<noteq> SNull \<and> fk r \<notin> set (map pk (d Customer))
            then Err IntegrityError
          else if \<exists>i \<in> set (text_columns t). is_num (col i r) then Beyond
          else Done (d(t := d t @ [r])))"

subsection \<open>The text of an UPDATE\<close>

text \<open>
  The program builds
  \<^verbatim>\<open>Update t SET f1= 'v1',f2= 'v2' where pk="key"\<close>
  by concatenation, so what SQLite does depends on the characters of the names, the
  values and the key.
\<close>

definition quote :: char where "quote = CHR 0x27"
definition dquote :: char where "dquote = CHR 0x22"
definition nul :: char where "nul = CHR 0x00"

definition lower_char :: "char \<Rightarrow> char" where
  "lower_char c =
     (case map_of (zip ''ABCDEFGHIJKLMNOPQRSTUVWXYZ'' ''abcdefghijklmnopqrstuvwxyz'') c of
        Some d \<Rightarrow> d | None \<Rightarrow> c)"

definition lower :: "string \<Rightarrow> string" where
  "lower s = map lower_char s"

definition ident_char :: "char \<Rightarrow> bool" where
  "ident_char c = (c \<in> set ''abcdefghijklmnopqrstuvwxyzABCDEFGHIJKLMNOPQRSTUVWXYZ0123456789_'')"

definition ident_like :: "string \<Rightarrow> bool" where
  "ident_like s = (case s of [] \<Rightarrow> False
                   | c # _ \<Rightarrow> c \<notin> set ''0123456789'' \<and> list_all ident_char s)"

text \<open>The names SQLite resolves in a statement on table \<open>t\<close>, compared without case.\<close>

definition resolvable :: "tname \<Rightarrow> string list" where
  "resolvable t = map lower (columns t @ [''rowid'', ''oid'', ''_rowid_''])"

text \<open>
  A key between double quotes is the string the program means when it holds no double
  quote and no NUL, is not empty, and is not a name of the table (SQLite reads
  \<^verbatim>\<open>"last_name"\<close> as the column).
\<close>

definition key_plain :: "tname \<Rightarrow> string \<Rightarrow> bool" where
  "key_plain t k = (k \<noteq> [] \<and> dquote \<notin> set k \<and> nul \<notin> set k \<and> lower k \<notin> set (resolvable t))"

definition quote_free :: "string \<Rightarrow> bool" where
  "quote_free v = (quote \<notin> set v \<and> nul \<notin> set v)"

text \<open>Characters that can open a comment or another kind of quoting, or end a statement.\<close>

definition tame :: "string \<Rightarrow> bool" where
  "tame v = (set v \<inter> set [dquote, nul, CHR ''-'', CHR ''/'', CHR ''['', CHR 0x60, CHR '';''] = {})"

definition quotes :: "string \<Rightarrow> nat" where
  "quotes v = length (filter (\<lambda>c. c = quote) v)"

datatype verdict = Runs | Fails | Unknown

text \<open>
  \<^item> No assignment: the text is \<^verbatim>\<open>Update t SET where ...\<close>, a syntax error.
  \<^item> Every name an identifier, every value free of quotes, the key plain: the statement
    runs when all names are columns of the table, and fails (no such column) when some
    name resolves to nothing.
  \<^item> An odd number of quotes in the values, with nothing that could hide a quote: the
    last string literal never ends, a syntax error (\<^verbatim>\<open>last_name= 'O'Brien'\<close>).
  \<^item> Anything else is not modelled.
\<close>

definition update_verdict :: "tname \<Rightarrow> (string \<times> string) list \<Rightarrow> string \<Rightarrow> verdict" where
  "update_verdict t fs k =
     (if fs = [] then Fails
      else if \<not> list_all (\<lambda>(n, v). ident_like n) fs then Unknown
      else if list_all (\<lambda>(n, v). quote_free v) fs then
        (if \<not> key_plain t k then Unknown
         else if list_all (\<lambda>(n, v). n \<in> set (columns t)) fs then Runs
         else if list_all (\<lambda>(n, v). n \<in> set (columns t) \<or> lower n \<notin> set (resolvable t)) fs
           then Fails
         else Unknown)
      else if list_all (\<lambda>(n, v). tame v) fs \<and> odd (sum_list (map (\<lambda>(n, v). quotes v) fs))
              \<and> quote \<notin> set k \<and> nul \<notin> set k
        then Fails
      else Unknown)"

subsection \<open>Running an UPDATE\<close>

text \<open>
  \<^verbatim>\<open>SET\<close> writes each named column of the rows whose key is \<open>k\<close>. A new key must not
  be another row's key; a Customer key that dependent rows refer to cannot change; a
  dependent row's new \<^verbatim>\<open>customer_id\<close> must exist. No row with key \<open>k\<close>: nothing
  happens, and nothing is raised.
\<close>

definition set_cols :: "tname \<Rightarrow> (string \<times> string) list \<Rightarrow> row \<Rightarrow> row" where
  "set_cols t fs r =
     map2 (\<lambda>n v. case map_of fs n of Some s \<Rightarrow> SText s | None \<Rightarrow> v) (columns t) r"

definition pk_clash :: "tname \<Rightarrow> (tname \<Rightarrow> row list) \<Rightarrow> (string \<times> string) list \<Rightarrow> string \<Rightarrow> bool" where
  "pk_clash t d fs k =
     (case map_of fs (hd (columns t)) of
        Some v \<Rightarrow> v \<noteq> k \<and> SText v \<in> set (map pk (d t))
      | None \<Rightarrow> False)"

definition parent_in_use :: "tname \<Rightarrow> (tname \<Rightarrow> row list) \<Rightarrow> (string \<times> string) list \<Rightarrow> string \<Rightarrow> bool" where
  "parent_in_use t d fs k =
     (t = Customer \<and>
      (case map_of fs ''customer_id'' of
         Some v \<Rightarrow> v \<noteq> k \<and> (\<exists>c \<in> set [SiteVisit, ImageUploaded, Orders]. SText k \<in> set (map fk (d c)))
       | None \<Rightarrow> False))"

definition orphaned :: "tname \<Rightarrow> (tname \<Rightarrow> row list) \<Rightarrow> (string \<times> string) list \<Rightarrow> bool" where
  "orphaned t d fs =
     (t \<noteq> Customer \<and>
      (case map_of fs ''customer_id'' of
         Some v \<Rightarrow> SText v \<notin> set (map pk (d Customer))
       | None \<Rightarrow> False))"

definition sql_update :: "tname \<Rightarrow> (tname \<Rightarrow> row list) \<Rightarrow> (string \<times> string) list \<Rightarrow> string \<Rightarrow> (tname \<Rightarrow> row list) exec" where
  "sql_update t d fs k =
     (case update_verdict t fs k of
        Unknown \<Rightarrow> Beyond
      | Fails \<Rightarrow> Err OperationalError
      | Runs \<Rightarrow>
          if \<not> (\<exists>r \<in> set (d t). pk r = SText k) then Done d
          else if pk_clash t d fs k \<or> parent_in_use t d fs k \<or> orphaned t d fs
            then Err IntegrityError
          else Done (d(t := map (\<lambda>r. if pk r = SText k then set_cols t fs r else r) (d t))))"

section \<open>The ingesters\<close>

text \<open>
  What stops the run: \<open>Exit100\<close> is \<^verbatim>\<open>exit(100)\<close> in \<^verbatim>\<open>Ingest\<close>, reached by every
  exception that leaves an ingester or the loop; \<open>Unmodelled\<close> marks a statement beyond
  the model.
\<close>

datatype fatal = Exit100 | Unmodelled

text \<open>
  The \<^verbatim>\<open>except\<close> block of every ingester builds its message with \<^verbatim>\<open>json['key']\<close>:
  with the key missing (KeyError) or not a string (TypeError) the block raises itself,
  and that exception leaves the ingester.
\<close>

definition handler :: "string \<Rightarrow> event \<Rightarrow> error \<Rightarrow> state \<Rightarrow> fatal + state" where
  "handler msg ev e st =
     (case map_of ev ''key'' of
        Some (JStr k) \<Rightarrow> Inr (st\<lparr>logged := logged st @ [Warning msg k e]\<rparr>)
      | _ \<Rightarrow> Inl Exit100)"

definition finish :: "string \<Rightarrow> event \<Rightarrow> state \<Rightarrow> (tname \<Rightarrow> row list) exec \<Rightarrow> fatal + state" where
  "finish msg ev st x =
     (case x of
        Done d \<Rightarrow> Inr (st\<lparr>db := d\<rparr>)
      | Err e \<Rightarrow> handler msg ev e st
      | Beyond \<Rightarrow> Inl Unmodelled)"

text \<open>\<^verbatim>\<open>json[k1], json[k2], ...\<close> evaluated left to right: the first missing key raises.\<close>

fun lookup_all :: "event \<Rightarrow> string list \<Rightarrow> error + jval list" where
  "lookup_all ev [] = Inr []"
| "lookup_all ev (k # ks) =
     (case map_of ev k of
        None \<Rightarrow> Inl KeyError
      | Some v \<Rightarrow> (case lookup_all ev ks of Inl e \<Rightarrow> Inl e | Inr vs \<Rightarrow> Inr (v # vs)))"

text \<open>
  The loop \<^verbatim>\<open>query = query + str(key) + "= '" + value + "',"\<close> over the fields that
  pass the filter: a value that is not a string cannot be concatenated.
\<close>

fun concat_fields :: "(string \<times> jval) list \<Rightarrow> error + (string \<times> string) list" where
  "concat_fields [] = Inr []"
| "concat_fields ((n, JStr s) # fs) =
     (case concat_fields fs of Inl e \<Rightarrow> Inl e | Inr r \<Rightarrow> Inr ((n, s) # r))"
| "concat_fields ((n, v) # fs) = Inl TypeError"

definition run_update :: "tname \<Rightarrow> (tname \<Rightarrow> row list) \<Rightarrow> (string \<times> jval) list \<Rightarrow> event \<Rightarrow> (tname \<Rightarrow> row list) exec" where
  "run_update t d flds ev =
     (case concat_fields flds of
        Inl e \<Rightarrow> Err e
      | Inr fs \<Rightarrow>
          (case map_of ev ''key'' of
             None \<Rightarrow> Err KeyError
           | Some (JStr k) \<Rightarrow> sql_update t d fs k
           | Some _ \<Rightarrow> Err TypeError))"

definition customer_fields :: "event \<Rightarrow> (string \<times> jval) list" where
  "customer_fields ev =
     filter (\<lambda>(key, value). value \<noteq> JStr [] \<and> key \<noteq> ''type'' \<and> key \<noteq> ''verb'' \<and> key \<noteq> ''key'')
       (items ev)"

definition customer_ingest :: "state \<Rightarrow> event \<Rightarrow> jval \<Rightarrow> fatal + state" where
  "customer_ingest st customer_json verb =
     (if verb = JStr ''NEW'' then
        finish ''Unable to insert the customer record- '' customer_json st
          (case lookup_all customer_json
                  [''key'', ''event_time'', ''last_name'', ''adr_city'', ''adr_state''] of
             Inl e \<Rightarrow> Err e
           | Inr vs \<Rightarrow> sql_insert Customer (db st) (map bind vs))
      else if verb = JStr ''UPDATE'' then
        finish ''Unable to insert the customer record- '' customer_json st
          (run_update Customer (db st) (customer_fields customer_json) customer_json)
      else Inr st)"

definition sitevisit_ingest :: "state \<Rightarrow> event \<Rightarrow> fatal + state" where
  "sitevisit_ingest st sitevisit_json =
     finish ''Unable to insert the SiteVisit record- '' sitevisit_json st
       (case lookup_all sitevisit_json [''key'', ''event_time'', ''customer_id'', ''tags''] of
          Inr [k, t, c, g] \<Rightarrow> sql_insert SiteVisit (db st) [bind k, bind t, bind c, Inr (SRepr g)]
        | Inr _ \<Rightarrow> Err KeyError
        | Inl e \<Rightarrow> Err e)"

definition imageuploded_ingest :: "state \<Rightarrow> event \<Rightarrow> fatal + state" where
  "imageuploded_ingest st imageuploaded_json =
     finish ''Unable to insert the image record- '' imageuploaded_json st
       (case lookup_all imageuploaded_json
               [''key'', ''event_time'', ''customer_id'', ''camera_make'', ''camera_model''] of
          Inl e \<Rightarrow> Err e
        | Inr vs \<Rightarrow> sql_insert ImageUploaded (db st) (map bind vs))"

definition order_fields :: "event \<Rightarrow> (string \<times> jval) list" where
  "order_fields ev =
     filter (\<lambda>(key, value). value \<noteq> JStr [] \<and> key \<noteq> ''type'' \<and> key \<noteq> ''verb'' \<and> key \<noteq> ''key''
                             \<and> key \<noteq> ''customer_id'')
       (items ev)"

definition order_ingest :: "state \<Rightarrow> event \<Rightarrow> jval \<Rightarrow> fatal + state" where
  "order_ingest st orders_json verb =
     (if verb = JStr ''NEW'' then
        finish ''Unable to insert the order record- '' orders_json st
          (case lookup_all orders_json [''key'', ''event_time'', ''customer_id'', ''total_amount''] of
             Inl e \<Rightarrow> Err e
           | Inr vs \<Rightarrow> sql_insert Orders (db st) (map bind vs))
      else if verb = JStr ''UPDATE'' then
        finish ''Unable to insert the order record- '' orders_json st
          (run_update Orders (db st) (order_fields orders_json) orders_json)
      else Inr st)"

section \<open>The dispatcher\<close>

text \<open>
  One turn of the loop of \<^verbatim>\<open>Ingest\<close>: \<^verbatim>\<open>event.get('type')\<close> selects the ingester;
  \<^verbatim>\<open>event['verb']\<close> is read in the loop itself, outside every \<^verbatim>\<open>try\<close> of the
  ingesters, so a CUSTOMER or ORDER event without a verb raises KeyError there.
\<close>

definition dispatch :: "state \<Rightarrow> event \<Rightarrow> fatal + state" where
  "dispatch st ev =
     (if map_of ev ''type'' = Some (JStr ''CUSTOMER'') then
        (case map_of ev ''verb'' of
           None \<Rightarrow> Inl Exit100
         | Some verb \<Rightarrow> customer_ingest st ev verb)
      else if map_of ev ''type'' = Some (JStr ''SITE_VISIT'') then sitevisit_ingest st ev
      else if map_of ev ''type'' = Some (JStr ''IMAGE'') then imageuploded_ingest st ev
      else if map_of ev ''type'' = Some (JStr ''ORDER'') then
        (case map_of ev ''verb'' of
           None \<Rightarrow> Inl Exit100
         | Some verb \<Rightarrow> order_ingest st ev verb)
      else Inr st)"

fun ingest_events :: "state \<Rightarrow> event list \<Rightarrow> fatal + state" where
  "ingest_events st [] = Inr st"
| "ingest_events st (ev # evs) =
     (case dispatch st ev of
        Inl f \<Rightarrow> Inl f
      | Inr st' \<Rightarrow> ingest_events st' evs)"

section \<open>The analytics table\<close>

text \<open>
  \<^verbatim>\<open>build_LTV_table\<close> asks SQLite for three aggregates per customer. Three functions
  of SQLite itself are parameters of the model, bundled in one record:
  \<^item> \<open>julianday\<close>: the Julian day number of a stored value, \<open>None\<close> for NULL and for
    what SQLite cannot read as a time;
  \<^item> \<open>numeric_text\<close>: the number a text is stored as in a column of NUMERIC affinity
    (\<^verbatim>\<open>DATE\<close>), \<open>None\<close> when the text is kept as text;
  \<^item> \<open>text_value\<close>: the number \<^verbatim>\<open>sum\<close> reads from a text.
\<close>

record sqlite =
  julianday :: "sqlval \<Rightarrow> rat option"
  numeric_text :: "string \<Rightarrow> rat option"
  text_value :: "string \<Rightarrow> rat"

text \<open>\<^verbatim>\<open>Select distinct(customer_id) from customer\<close>.\<close>

definition distinct_Customers :: "(tname \<Rightarrow> row list) \<Rightarrow> sqlval list" where
  "distinct_Customers d = remdups (map pk (d Customer))"

text \<open>\<^verbatim>\<open>'... where customer_id="%s"' % Current_Customer\<close>: None is printed as its name.\<close>

fun fmt :: "sqlval \<Rightarrow> string option" where
  "fmt (SText s) = Some s"
| "fmt SNull = Some ''None''"
| "fmt _ = None"

definition rows_of :: "tname \<Rightarrow> (tname \<Rightarrow> row list) \<Rightarrow> string \<Rightarrow> row list" where
  "rows_of t d s = filter (\<lambda>r. fk r = SText s) (d t)"

text \<open>
  \<^verbatim>\<open>sum(total_amount)\<close>: NULL over no non-NULL value, else a REAL (the column has REAL
  affinity, and a text adds the number read from it).
\<close>

definition real_value :: "sqlite \<Rightarrow> sqlval \<Rightarrow> rat" where
  "real_value S v = (case v of SNum r \<Rightarrow> r | SText s \<Rightarrow> text_value S s | _ \<Rightarrow> 0)"

definition sum_total_amount :: "sqlite \<Rightarrow> row list \<Rightarrow> rat option" where
  "sum_total_amount S rs =
     (let vs = filter (\<lambda>v. v \<noteq> SNull) (map (col 3) rs)
      in if vs = [] then None else Some (sum_list (map (real_value S) vs)))"

text \<open>
  \<^verbatim>\<open>max(event_time)\<close> and \<^verbatim>\<open>min(event_time)\<close> follow the order of stored values:
  numbers before texts, numbers by value, texts byte by byte. NULLs do not count.
\<close>

definition stored_date :: "sqlite \<Rightarrow> sqlval \<Rightarrow> sqlval" where
  "stored_date S v =
     (case v of
        SText s \<Rightarrow> (case numeric_text S s of Some r \<Rightarrow> SNum r | None \<Rightarrow> v)
      | _ \<Rightarrow> v)"

definition sort_rank :: "sqlval \<Rightarrow> nat \<times> rat \<times> nat list" where
  "sort_rank v =
     (case v of
        SNum r \<Rightarrow> (0, r, [])
      | SText s \<Rightarrow> (1, 0, map of_char s)
      | _ \<Rightarrow> (2, 0, []))"

definition agg_max :: "sqlval list \<Rightarrow> sqlval" where
  "agg_max vs = fold (\<lambda>v m. if sort_rank m < sort_rank v then v else m) vs (hd vs)"

definition agg_min :: "sqlval list \<Rightarrow> sqlval" where
  "agg_min vs = fold (\<lambda>v m. if sort_rank v < sort_rank m then v else m) vs (hd vs)"

definition event_times :: "sqlite \<Rightarrow> row list \<Rightarrow> sqlval list" where
  "event_times S rs = filter (\<lambda>v. v \<noteq> SNull) (map (\<lambda>r. stored_date S (col 1 r)) rs)"

text \<open>
  \<^verbatim>\<open>(julianday(max(event_time)) - julianday(min(event_time)))/ 7\<close>, NULL when either
  Julian day is.
\<close>

definition weeks_between :: "sqlite \<Rightarrow> row list \<Rightarrow> rat option" where
  "weeks_between S rs =
     (let ts = event_times S rs
      in if ts = [] then None
         else (case (julianday S (agg_max ts), julianday S (agg_min ts)) of
                 (Some a, Some b) \<Rightarrow> Some ((a - b) / 7)
               | _ \<Rightarrow> None))"

text \<open>Python's \<^verbatim>\<open>int(x)\<close> on a float: the fraction is dropped, towards zero.\<close>

definition py_int :: "rat \<Rightarrow> int" where
  "py_int x = (if 0 \<le> x then \<lfloor>x\<rfloor> else \<lceil>x\<rceil>)"

text \<open>
  The body of the loop over the customers. \<^verbatim>\<open>None != float(0)\<close> holds, so a NULL
  number of weeks passes the \<^verbatim>\<open>if\<close> and the division \<^verbatim>\<open>NoOfVisits / NoOfWeeks\<close>
  raises TypeError inside the \<^verbatim>\<open>try\<close>, where it is logged.
\<close>

definition LTV_row :: "sqlval \<Rightarrow> nat \<Rightarrow> rat \<Rightarrow> rat \<Rightarrow> ltv_row" where
  "LTV_row Current_Customer n te w =
     (let expenditure_pervisit = te / of_nat n;
          site_visits_perweek = of_nat n / w;
          shutterfly_average_customer_lifespan = 10
      in \<lparr>Customer_id = Current_Customer, NoofVisits = n, total_expenditure = te,
          ExpenditurePerVisit = expenditure_pervisit, SiteVisitsPerWeek = site_visits_perweek,
          NoOfWeeks = w,
          CLV = (52 * of_int (py_int expenditure_pervisit) * site_visits_perweek)
                  * shutterfly_average_customer_lifespan\<rparr>)"

definition LTV_step :: "sqlite \<Rightarrow> state \<Rightarrow> sqlval \<Rightarrow> fatal + state" where
  "LTV_step S st Current_Customer =
     (case fmt Current_Customer of
        None \<Rightarrow> Inl Unmodelled
      | Some s \<Rightarrow>
          if \<not> key_plain SiteVisit s \<or> \<not> key_plain Orders s then Inl Unmodelled
          else
            let NoOfVisits = length (rows_of SiteVisit (db st) s);
                total = sum_total_amount S (rows_of Orders (db st) s);
                weeks = weeks_between S (rows_of SiteVisit (db st) s)
            in if NoOfVisits \<noteq> 0 \<and> weeks \<noteq> Some 0 \<and> total \<noteq> None then
                 (case (total, weeks) of
                    (Some te, Some w) \<Rightarrow>
                      if Current_Customer \<noteq> SNull
                         \<and> Current_Customer \<in> set (map Customer_id (customer_LTV st))
                      then Inr (st\<lparr>logged := logged st @ [Critical IntegrityError]\<rparr>)
                      else Inr (st\<lparr>customer_LTV := customer_LTV st @ [LTV_row Current_Customer NoOfVisits te w]\<rparr>)
                  | _ \<Rightarrow> Inr (st\<lparr>logged := logged st @ [Critical TypeError]\<rparr>))
               else Inr st)"

fun LTV_loop :: "sqlite \<Rightarrow> state \<Rightarrow> sqlval list \<Rightarrow> fatal + state" where
  "LTV_loop S st [] = Inr st"
| "LTV_loop S st (c # cs) =
     (case LTV_step S st c of
        Inl f \<Rightarrow> Inl f
      | Inr st' \<Rightarrow> LTV_loop S st' cs)"

definition build_LTV_table :: "sqlite \<Rightarrow> state \<Rightarrow> fatal + state" where
  "build_LTV_table S st = LTV_loop S st (distinct_Customers (db st))"

text \<open>
  \<^verbatim>\<open>Ingest\<close>: the tables, the loop over the events, then the analytics table, all in
  one \<^verbatim>\<open>try\<close> whose \<^verbatim>\<open>except\<close> is \<^verbatim>\<open>exit(100)\<close>.
\<close>

definition Ingest :: "sqlite \<Rightarrow> event list \<Rightarrow> fatal + state" where
  "Ingest S events =
     (case ingest_events create_tables events of
        Inl f \<Rightarrow> Inl f
      | Inr st \<Rightarrow> build_LTV_table S st)"

section \<open>The top N customers\<close>

text \<open>
  \<^verbatim>\<open>select customer_id,CLV from customer_LTV order by CLV desc limit 'N'\<close>. A negative
  limit is no limit. Rows of equal CLV come in an order SQLite chooses; the model keeps
  them in table order.
\<close>

definition TopXSimpleLTVCustomers :: "int \<Rightarrow> state \<Rightarrow> (sqlval \<times> rat) list" where
  "TopXSimpleLTVCustomers top_n st =
     (let ordered = sort_key (\<lambda>r. - CLV r) (customer_LTV st);
          limited = (if top_n < 0 then ordered else take (nat top_n) ordered)
      in map (\<lambda>r. (Customer_id r, CLV r)) limited)"

definition main :: "sqlite \<Rightarrow> event list \<Rightarrow> int \<Rightarrow> fatal + (sqlval \<times> rat) list" where
  "main S events x =
     (case Ingest S events of
        Inl f \<Rightarrow> Inl f
      | Inr st \<Rightarrow> Inr (TopXSimpleLTVCustomers x st))"

section \<open>Scenarios\<close>

text \<open>Five records of the analytics table, with CLV 52000, 52000/3, 156000, 52000, 260000/3.\<close>

definition five :: state where
  "five = \<lparr>db = (\<lambda>t. []),
            customer_LTV = map (\<lambda>(c, v). LTV_row (SText c) 4 v 3)
              [(''a'', 300), (''b'', 100), (''c'', 900), (''d'', 300), (''e'', 500)],
            logged = []\<rparr>"



text \<open>A customer \<open>c1\<close>, the state after its NEW event, and a visit of an unknown \<open>c2\<close>.\<close>

definition c1_new :: event where
  "c1_new = [(''type'', JStr ''CUSTOMER''), (''verb'', JStr ''NEW''), (''key'', JStr ''c1''),
             (''event_time'', JStr ''2017-01-06T12:46:46.384Z''), (''last_name'', JStr ''A''),
             (''adr_city'', JStr ''X''), (''adr_state'', JStr ''AK'')]"

definition st_c1 :: state where
  "st_c1 = \<lparr>db = (\<lambda>t. [])(Customer :=
              [[SText ''c1'', SText ''2017-01-06T12:46:46.384Z'', SText ''A'', SText ''X'', SText ''AK'']]),
            customer_LTV = [], logged = []\<rparr>"


text \<open>
  Two events that the loop cannot handle: a CUSTOMER event without \<^verbatim>\<open>verb\<close>, and a
  SITE_VISIT event without \<^verbatim>\<open>key\<close>.
\<close>

definition no_verb :: event where
  "no_verb = [(''type'', JStr ''CUSTOMER''), (''key'', JStr ''c9'')]"

definition no_key :: event where
  "no_key = [(''type'', JStr ''SITE_VISIT''), (''event_time'', JStr ''2017-01-06T12:45:52.041Z''),
             (''customer_id'', JStr ''c1''), (''tags'', JArr)]"




text \<open>
  The partial update in the words of the specification: a field of the payload replaces
  the column of its name when it is a non-empty string and its name is not excluded;
  every other column keeps its value.
\<close>

definition patched :: "string list \<Rightarrow> event \<Rightarrow> string \<Rightarrow> sqlval \<Rightarrow> sqlval" where
  "patched excluded ev n old =
     (case map_of ev n of
        Some (JStr s) \<Rightarrow> (if s \<noteq> [] \<and> n \<notin> set excluded then SText s else old)
      | _ \<Rightarrow> old)"

definition patch_row :: "tname \<Rightarrow> string list \<Rightarrow> event \<Rightarrow> row \<Rightarrow> row" where
  "patch_row t excluded ev r = map2 (patched excluded ev) (columns t) r"

text \<open>
  A payload whose statement SQLite reads as intended: at least one field to set, every
  such field named after a column of the table and holding a string without quote, and
  a plain string key.
\<close>

definition plain_update :: "tname \<Rightarrow> (string \<times> jval) list \<Rightarrow> event \<Rightarrow> bool" where
  "plain_update t flds ev =
     (flds \<noteq> []
      \<and> list_all (\<lambda>(n, v). n \<in> set (columns t) \<and> (case v of JStr s \<Rightarrow> quote_free s | _ \<Rightarrow> False)) flds
      \<and> (case map_of ev ''key'' of Some (JStr k) \<Rightarrow> key_plain t k | _ \<Rightarrow> False))"

text \<open>
  The scenario of the specification (NEW with last_name A and city X, then UPDATE with
  city Y and the other fields empty), and the same customer renamed O'Brien.
\<close>

definition c1_city :: event where
  "c1_city = [(''type'', JStr ''CUSTOMER''), (''verb'', JStr ''UPDATE''), (''key'', JStr ''c1''),
              (''event_time'', JStr []), (''last_name'', JStr []),
              (''adr_city'', JStr ''Y''), (''adr_state'', JStr [])]"

definition c1_obrien :: event where
  "c1_obrien = [(''type'', JStr ''CUSTOMER''), (''verb'', JStr ''UPDATE''), (''key'', JStr ''c1''),
                (''event_time'', JStr []), (''last_name'', JStr ''O'Brien''),
                (''adr_city'', JStr []), (''adr_state'', JStr [])]"












section \<open>Properties of the top N query\<close>

lemma sorted_desc_sort_key_neg:
  fixes f :: "'a \<Rightarrow> rat"
  shows "sorted_wrt (\<lambda>a b. b \<le> a) (map f (sort_key (\<lambda>r. - f r) xs))"
proof -
  have "sorted (map (\<lambda>r. - f r) (sort_key (\<lambda>r. - f r) xs))" by (rule sorted_sort_key)
  then show ?thesis
    by (simp add: sorted_wrt_map)
qed

lemma sorted_wrt_take_ge:
  "sorted_wrt P xs \<Longrightarrow> sorted_wrt P (take n xs)"
  by (metis append_take_drop_id sorted_wrt_append)

text \<open>
  C6. For \<open>N \<ge> 0\<close> the query returns \<open>min N (number of LTV records)\<close> pairs
  (customer_id, CLV), each taken from a record of the table (no record twice), in
  non-increasing order of CLV; \<open>N = 0\<close> gives the empty list, and an \<open>N\<close> of at least the
  number of records gives exactly one pair per record.
\<close>

theorem TopX_ordered_prefix:
  assumes "0 \<le> N"
  shows "length (TopXSimpleLTVCustomers N st) = min (nat N) (length (customer_LTV st))
       \<and> sorted_wrt (\<lambda>a b. b \<le> a) (map snd (TopXSimpleLTVCustomers N st))
       \<and> mset (TopXSimpleLTVCustomers N st) \<subseteq># mset (map (\<lambda>r. (Customer_id r, CLV r)) (customer_LTV st))
       \<and> (N = 0 \<longrightarrow> TopXSimpleLTVCustomers N st = [])
       \<and> (int (length (customer_LTV st)) \<le> N \<longrightarrow>
            mset (TopXSimpleLTVCustomers N st) = mset (map (\<lambda>r. (Customer_id r, CLV r)) (customer_LTV st)))"
proof -
  let ?pair = "\<lambda>r. (Customer_id r, CLV r)"
  let ?ord = "sort_key (\<lambda>r. - CLV r) (customer_LTV st)"
  have top: "TopXSimpleLTVCustomers N st = map ?pair (take (nat N) ?ord)"
    using assms by (simp add: TopXSimpleLTVCustomers_def)
  have len: "length (TopXSimpleLTVCustomers N st) = min (nat N) (length (customer_LTV st))"
    by (simp add: top min.commute)
  have "map snd (TopXSimpleLTVCustomers N st) = take (nat N) (map CLV ?ord)"
    by (simp add: top take_map comp_def)
  moreover have "sorted_wrt (\<lambda>a b. b \<le> a) (map CLV ?ord)"
    by (rule sorted_desc_sort_key_neg)
  ultimately have srt: "sorted_wrt (\<lambda>a b. b \<le> a) (map snd (TopXSimpleLTVCustomers N st))"
    by (simp add: sorted_wrt_take_ge)
  have "mset (take (nat N) ?ord) \<subseteq># mset ?ord"
    by (metis append_take_drop_id mset_append mset_subset_eq_add_left)
  then have "image_mset ?pair (mset (take (nat N) ?ord)) \<subseteq># image_mset ?pair (mset (customer_LTV st))"
    by (simp add: image_mset_subseteq_mono)
  then have sub: "mset (TopXSimpleLTVCustomers N st) \<subseteq># mset (map ?pair (customer_LTV st))"
    by (simp add: top)
  have zero: "N = 0 \<longrightarrow> TopXSimpleLTVCustomers N st = []"
    using top by auto
  have all: "int (length (customer_LTV st)) \<le> N \<longrightarrow>
            mset (TopXSimpleLTVCustomers N st) = mset (map ?pair (customer_LTV st))"
  proof
    assume "int (length (customer_LTV st)) \<le> N"
    then have "take (nat N) ?ord = ?ord" by simp
    then show "mset (TopXSimpleLTVCustomers N st) = mset (map ?pair (customer_LTV st))"
      by (simp add: top)
  qed
  from len srt sub zero all show ?thesis by blast
qed

text \<open>Five records and \<open>N = 3\<close>: three pairs, CLV non-increasing.\<close>

theorem TopX_ordered_prefix_witness:
  "(0::int) \<le> 3 \<and> length (TopXSimpleLTVCustomers 3 five) = 3
   \<and> sorted_wrt (\<lambda>a b. b \<le> a) (map snd (TopXSimpleLTVCustomers 3 five))"
  using TopX_ordered_prefix [of 3 five] by (simp add: five_def)



lemma finish_Done: "finish msg ev st (Done d) = Inr (st\<lparr>db := d\<rparr>)"
  by (simp add: finish_def)




























lemma run_c1_new: "ingest_events create_tables [c1_new] = Inr st_c1"
  by (simp add: c1_new_def st_c1_def create_tables_def dispatch_def customer_ingest_def
      finish_def sql_insert_def pk_def col_def is_num_def)






lemma finish_no_exit:
  "map_of ev ''key'' = Some (JStr k) \<Longrightarrow> finish msg ev st x \<noteq> Inl Exit100"
  by (cases x) (simp_all add: finish_def handler_def)

lemma dispatch_no_exit:
  assumes key: "map_of ev ''key'' = Some (JStr k)"
    and verb: "map_of ev ''type'' \<in> {Some (JStr ''CUSTOMER''), Some (JStr ''ORDER'')}
               \<longrightarrow> map_of ev ''verb'' \<noteq> None"
  shows "dispatch st ev \<noteq> Inl Exit100"
  using verb finish_no_exit [OF key]
  by (auto simp: dispatch_def customer_ingest_def order_ingest_def sitevisit_ingest_def
      imageuploded_ingest_def split: option.splits)

lemma dispatch_unknown_type:
  assumes "map_of ev ''type'' \<notin> {Some (JStr ''CUSTOMER''), Some (JStr ''SITE_VISIT''),
                                 Some (JStr ''IMAGE''), Some (JStr ''ORDER'')}"
  shows "dispatch st ev = Inr st"
  using assms by (simp add: dispatch_def)

text \<open>
  C4. The claim fails on the code: the event \<open>no_verb\<close> ends the run with
  \<^verbatim>\<open>exit(100)\<close> and the customer event after it is never ingested, although alone it
  is ingested; the event \<open>no_key\<close>, placed after it, ends the run as well.
\<close>

theorem missing_verb_or_key_stops_run:
  "ingest_events create_tables [no_verb, c1_new] = Inl Exit100
   \<and> ingest_events create_tables [c1_new] = Inr st_c1
   \<and> ingest_events create_tables [c1_new, no_key, c1_new] = Inl Exit100"
proof -
  have a: "dispatch st no_verb = Inl Exit100" for st
    by (simp add: dispatch_def no_verb_def)
  have b: "dispatch st_c1 no_key = Inl Exit100"
    by (simp add: dispatch_def no_key_def sitevisit_ingest_def finish_def handler_def)
  from run_c1_new have c: "dispatch create_tables c1_new = Inr st_c1"
    by (simp split: sum.splits)
  from a b c run_c1_new show ?thesis by simp
qed

















lemma concat_fields_Inr:
  "concat_fields flds = Inr fs \<Longrightarrow> flds = map (\<lambda>(n, s). (n, JStr s)) fs"
proof (induction flds arbitrary: fs rule: concat_fields.induct)
  case 1
  then show ?case by simp
next
  case (2 n s fs')
  then show ?case by (auto split: sum.splits)
qed simp_all

lemma concat_fields_strings:
  "list_all (\<lambda>(n, v). case v of JStr s \<Rightarrow> True | _ \<Rightarrow> False) flds \<Longrightarrow> \<exists>fs. concat_fields flds = Inr fs"
proof (induction flds rule: concat_fields.induct)
  case 1
  then show ?case by simp
next
  case (2 n s fs')
  then show ?case by auto
qed simp_all

lemma columns_ident: "n \<in> set (columns t) \<Longrightarrow> ident_like n"
  by (cases t) (auto simp: ident_like_def ident_char_def)

lemma plain_update_Runs:
  assumes "plain_update t flds ev"
  shows "\<exists>fs k. concat_fields flds = Inr fs \<and> map_of ev ''key'' = Some (JStr k)
               \<and> update_verdict t fs k = Runs"
proof -
  from assms have ne: "flds \<noteq> []"
    and all: "list_all (\<lambda>(n, v). n \<in> set (columns t) \<and> (case v of JStr s \<Rightarrow> quote_free s | _ \<Rightarrow> False)) flds"
    by (simp_all add: plain_update_def)
  from assms obtain k where k: "map_of ev ''key'' = Some (JStr k)" "key_plain t k"
    by (auto simp: plain_update_def split: option.splits jval.splits)
  from all have "list_all (\<lambda>(n, v). case v of JStr s \<Rightarrow> True | _ \<Rightarrow> False) flds"
    by (auto simp: list_all_iff split: jval.splits)
  from concat_fields_strings [OF this] obtain fs where fs: "concat_fields flds = Inr fs" ..
  from concat_fields_Inr [OF fs] have eq: "flds = map (\<lambda>(n, s). (n, JStr s)) fs" .
  with ne have ne': "fs \<noteq> []" by auto
  from all eq have cols: "list_all (\<lambda>(n, v). n \<in> set (columns t)) fs"
    and qf: "list_all (\<lambda>(n, v). quote_free v) fs"
    by (auto simp: list_all_iff)
  from cols have "list_all (\<lambda>(n, v). ident_like n) fs"
    by (auto simp: list_all_iff columns_ident)
  with ne' cols qf k have "update_verdict t fs k = Runs"
    by (simp add: update_verdict_def)
  with fs k show ?thesis by blast
qed

lemma map_of_filter_distinct:
  "distinct (map fst xs) \<Longrightarrow>
   map_of (filter (\<lambda>(k, v). P k v) xs) n =
     (case map_of xs n of Some v \<Rightarrow> if P n v then Some v else None | None \<Rightarrow> None)"
proof (induction xs)
  case Nil
  then show ?case by simp
next
  case (Cons x xs)
  obtain k v where x: "x = (k, v)" by (cases x)
  from Cons.prems x have "k \<notin> fst ` set xs" by simp
  then have none: "map_of xs k = None" by (simp add: map_of_eq_None_iff)
  with Cons x show ?case by (auto split: option.splits)
qed

lemma map_of_payload:
  "map_of (filter (\<lambda>(k, v). P k v) (items ev)) n =
     (case map_of ev n of Some v \<Rightarrow> if P n v then Some v else None | None \<Rightarrow> None)"
  by (simp add: items_def map_of_filter_distinct map_of_clearjunk)

lemma set_cols_patch_row:
  assumes flds: "flds = filter (\<lambda>(n, v). v \<noteq> JStr [] \<and> n \<notin> set excl) (items ev)"
    and fs: "concat_fields flds = Inr fs"
  shows "set_cols t fs r = patch_row t excl ev r"
proof -
  from concat_fields_Inr [OF fs] have eq: "flds = map (\<lambda>(n, s). (n, JStr s)) fs" .
  have m: "map_of flds n = map_option JStr (map_of fs n)" for n
    unfolding eq by (induction fs) auto
  have "(case map_of fs n of Some s \<Rightarrow> SText s | None \<Rightarrow> old) = patched excl ev n old" for n old
  proof -
    have p: "map_of flds n = (case map_of ev n of
        Some v \<Rightarrow> if v \<noteq> JStr [] \<and> n \<notin> set excl then Some v else None | None \<Rightarrow> None)"
      unfolding flds by (rule map_of_payload)
    show ?thesis
    proof (cases "map_of fs n")
      case None
      with m [of n] p show ?thesis
        by (auto simp: patched_def split: option.splits jval.splits if_splits)
    next
      case (Some s)
      with m [of n] p show ?thesis
        by (auto simp: patched_def split: option.splits jval.splits if_splits)
    qed
  qed
  then show ?thesis by (simp add: set_cols_def patch_row_def)
qed

lemma plain_update_applies:
  assumes flds: "flds = filter (\<lambda>(n, v). v \<noteq> JStr [] \<and> n \<notin> set excl) (items ev)"
    and plain: "plain_update t flds ev"
    and key: "map_of ev ''key'' = Some (JStr k)"
    and fs: "concat_fields flds = Inr fs"
    and ok: "\<not> pk_clash t d fs k" "\<not> parent_in_use t d fs k" "\<not> orphaned t d fs"
  shows "run_update t d flds ev
       = Done (d(t := map (\<lambda>r. if pk r = SText k then patch_row t excl ev r else r) (d t)))"
proof -
  from plain_update_Runs [OF plain] fs key have runs: "update_verdict t fs k = Runs" by auto
  show ?thesis
  proof (cases "\<exists>r \<in> set (d t). pk r = SText k")
    case True
    have sc: "set_cols t fs r = patch_row t excl ev r" for r
      by (rule set_cols_patch_row [OF flds fs])
    from True runs ok fs key show ?thesis
      by (simp add: run_update_def sql_update_def sc cong: if_cong)
  next
    case False
    then have "map (\<lambda>r. if pk r = SText k then patch_row t excl ev r else r) (d t) = d t"
      by (induction "d t") (auto simp: map_idI)
    with False runs fs key show ?thesis
      by (simp add: run_update_def sql_update_def)
  qed
qed









lemma customer_update_applies:
  assumes key: "map_of ev ''key'' = Some (JStr k)"
    and plain: "plain_update Customer (customer_fields ev) ev"
    and noid: "map_of ev ''customer_id'' = None"
  shows "customer_ingest st ev (JStr ''UPDATE'')
       = Inr (st\<lparr>db := (db st)(Customer :=
               map (\<lambda>r. if pk r = SText k
                         then patch_row Customer [''type'', ''verb'', ''key''] ev r else r)
                 (db st Customer))\<rparr>)"
proof -
  have flds: "customer_fields ev
      = filter (\<lambda>(n, v). v \<noteq> JStr [] \<and> n \<notin> set [''type'', ''verb'', ''key'']) (items ev)"
    by (simp add: customer_fields_def)
  from plain_update_Runs [OF plain] obtain fs where fs: "concat_fields (customer_fields ev) = Inr fs"
    by blast
  from concat_fields_Inr [OF fs] have eq: "customer_fields ev = map (\<lambda>(n, s). (n, JStr s)) fs" .
  have "map_of (customer_fields ev) ''customer_id'' = None"
    unfolding flds map_of_payload using noid by simp
  then have "''customer_id'' \<notin> fst ` set (customer_fields ev)" by (simp add: map_of_eq_None_iff)
  with eq have "''customer_id'' \<notin> fst ` set fs" by force
  then have none: "map_of fs ''customer_id'' = None" by (simp add: map_of_eq_None_iff)
  then have a: "\<not> pk_clash Customer (db st) fs k" by (simp add: pk_clash_def)
  from none have b: "\<not> parent_in_use Customer (db st) fs k" by (simp add: parent_in_use_def)
  have c: "\<not> orphaned Customer (db st) fs" by (simp add: orphaned_def)
  from plain_update_applies [OF flds plain key fs a b c] show ?thesis
    by (simp add: customer_ingest_def finish_def)
qed

lemma scenario_partial_update:
  "ingest_events create_tables [c1_new, c1_city]
     = Inr (st_c1\<lparr>db := (db st_c1)(Customer :=
         [[SText ''c1'', SText ''2017-01-06T12:46:46.384Z'', SText ''A'', SText ''Y'', SText ''AK'']])\<rparr>)"
proof -
  have k: "map_of c1_city ''key'' = Some (JStr ''c1'')" by (simp add: c1_city_def)
  have flds: "customer_fields c1_city = [(''adr_city'', JStr ''Y'')]"
    by (simp add: customer_fields_def c1_city_def items_def AList.delete_eq)
  have p: "plain_update Customer (customer_fields c1_city) c1_city"
    unfolding flds
    by (simp add: plain_update_def c1_city_def quote_free_def key_plain_def quote_def nul_def
        dquote_def lower_def lower_char_def resolvable_def)
  have n: "map_of c1_city ''customer_id'' = None" by (simp add: c1_city_def)
  have "dispatch st_c1 c1_city = customer_ingest st_c1 c1_city (JStr ''UPDATE'')"
    by (simp add: dispatch_def c1_city_def)
  also note customer_update_applies [OF k p n]
  finally have "dispatch st_c1 c1_city
     = Inr (st_c1\<lparr>db := (db st_c1)(Customer :=
         [[SText ''c1'', SText ''2017-01-06T12:46:46.384Z'', SText ''A'', SText ''Y'', SText ''AK'']])\<rparr>)"
    by (simp add: st_c1_def pk_def col_def patch_row_def patched_def c1_city_def)
  moreover from run_c1_new have "dispatch create_tables c1_new = Inr st_c1"
    by (simp split: sum.splits)
  ultimately show ?thesis by simp
qed

text \<open>
  C5. The claim fails on the code: the UPDATE that sets last_name to O'Brien writes
  nothing. The statement text is
  \<^verbatim>\<open>Update customer SET last_name= 'O'Brien' where customer_id="c1"\<close>, SQLite raises
  a syntax error, the ingester logs a warning, and the row keeps last_name A.
\<close>

theorem apostrophe_update_dropped:
  "ingest_events create_tables [c1_new, c1_obrien]
     = Inr (st_c1\<lparr>logged := [Warning ''Unable to insert the customer record- '' ''c1'' OperationalError]\<rparr>)
   \<and> db st_c1 Customer
     = [[SText ''c1'', SText ''2017-01-06T12:46:46.384Z'', SText ''A'', SText ''X'', SText ''AK'']]"
proof -
  have flds: "customer_fields c1_obrien = [(''last_name'', JStr ''O'Brien'')]"
    by (simp add: customer_fields_def c1_obrien_def items_def AList.delete_eq)
  have v: "update_verdict Customer [(''last_name'', ''O'Brien'')] ''c1'' = Fails"
    by (simp add: update_verdict_def ident_like_def ident_char_def quote_free_def tame_def
        quotes_def quote_def nul_def dquote_def)
  have "dispatch st_c1 c1_obrien
     = Inr (st_c1\<lparr>logged := logged st_c1 @ [Warning ''Unable to insert the customer record- '' ''c1'' OperationalError]\<rparr>)"
    unfolding dispatch_def customer_ingest_def flds
    by (simp add: c1_obrien_def run_update_def sql_update_def v finish_def handler_def)
  moreover from run_c1_new have "dispatch create_tables c1_new = Inr st_c1"
    by (simp split: sum.splits)
  ultimately show ?thesis by (simp add: st_c1_def)
qed











lemma agg_max_greatest:
  "ts \<noteq> [] \<Longrightarrow> agg_max ts \<in> set ts \<and> (\<forall>v \<in> set ts. sort_rank v \<le> sort_rank (agg_max ts))"
proof -
  have "fold (\<lambda>v m. if sort_rank m < sort_rank v then v else m) xs m0 \<in> insert m0 (set xs)
      \<and> sort_rank m0 \<le> sort_rank (fold (\<lambda>v m. if sort_rank m < sort_rank v then v else m) xs m0)
      \<and> (\<forall>v \<in> set xs. sort_rank v \<le> sort_rank (fold (\<lambda>v m. if sort_rank m < sort_rank v then v else m) xs m0))"
    for xs m0
  proof (induction xs arbitrary: m0)
    case Nil
    then show ?case by simp
  next
    case (Cons x xs)
    let ?f = "fold (\<lambda>v m. if sort_rank m < sort_rank v then v else m) xs"
    show ?case
    proof (cases "sort_rank m0 < sort_rank x")
      case True
      from Cons [of x] have "?f x \<in> insert x (set xs)" "sort_rank x \<le> sort_rank (?f x)"
        "\<forall>v \<in> set xs. sort_rank v \<le> sort_rank (?f x)" by auto
      moreover from True this(2) have "sort_rank m0 \<le> sort_rank (?f x)" by simp
      ultimately show ?thesis using True by auto
    next
      case False
      from Cons [of m0] have "?f m0 \<in> insert m0 (set xs)" "sort_rank m0 \<le> sort_rank (?f m0)"
        "\<forall>v \<in> set xs. sort_rank v \<le> sort_rank (?f m0)" by auto
      moreover from False this(2) have "sort_rank x \<le> sort_rank (?f m0)" by simp
      ultimately show ?thesis using False by auto
    qed
  qed
  from this [of ts "hd ts"] show "ts \<noteq> [] \<Longrightarrow> ?thesis"
    by (auto simp: agg_max_def)
qed

lemma agg_min_least:
  "ts \<noteq> [] \<Longrightarrow> agg_min ts \<in> set ts \<and> (\<forall>v \<in> set ts. sort_rank (agg_min ts) \<le> sort_rank v)"
proof -
  have "fold (\<lambda>v m. if sort_rank v < sort_rank m then v else m) xs m0 \<in> insert m0 (set xs)
      \<and> sort_rank (fold (\<lambda>v m. if sort_rank v < sort_rank m then v else m) xs m0) \<le> sort_rank m0
      \<and> (\<forall>v \<in> set xs. sort_rank (fold (\<lambda>v m. if sort_rank v < sort_rank m then v else m) xs m0) \<le> sort_rank v)"
    for xs m0
  proof (induction xs arbitrary: m0)
    case Nil
    then show ?case by simp
  next
    case (Cons x xs)
    let ?f = "fold (\<lambda>v m. if sort_rank v < sort_rank m then v else m) xs"
    show ?case
    proof (cases "sort_rank x < sort_rank m0")
      case True
      from Cons [of x] have "?f x \<in> insert x (set xs)" "sort_rank (?f x) \<le> sort_rank x"
        "\<forall>v \<in> set xs. sort_rank (?f x) \<le> sort_rank v" by auto
      moreover from True this(2) have "sort_rank (?f x) \<le> sort_rank m0" by simp
      ultimately show ?thesis using True by auto
    next
      case False
      from Cons [of m0] have "?f m0 \<in> insert m0 (set xs)" "sort_rank (?f m0) \<le> sort_rank m0"
        "\<forall>v \<in> set xs. sort_rank (?f m0) \<le> sort_rank v" by auto
      moreover from False this(2) have "sort_rank (?f m0) \<le> sort_rank x" by simp
      ultimately show ?thesis using False by auto
    qed
  qed
  from this [of ts "hd ts"] show "ts \<noteq> [] \<Longrightarrow> ?thesis"
    by (auto simp: agg_min_def)
qed

lemma weeks_between_one_timestamp:
  assumes "set (event_times S rs) = {v}" "julianday S v = Some a"
  shows "weeks_between S rs = Some 0"
proof -
  from assms(1) have ne: "event_times S rs \<noteq> []" by auto
  from agg_max_greatest [OF ne] agg_min_least [OF ne] assms(1)
  have "agg_max (event_times S rs) = v" "agg_min (event_times S rs) = v" by auto
  with ne assms(2) show ?thesis by (simp add: weeks_between_def)
qed







end
